theory Spec2Isabelle
  imports Complex_Main
begin

section \<open>Python text\<close>

text \<open>
  A Python \<open>str\<close> is modelled as an Isabelle \<open>string\<close>: the sequence of the bytes of
  its UTF-8 encoding. Substring tests on valid UTF-8 agree with substring tests on code
  points. \<open>str.lower\<close> and \<open>str.upper\<close> are modelled on the ASCII letters; the bytes
  of other characters are left as they are.
\<close>

definition ascii_uppercase :: string where
  "ascii_uppercase = ''ABCDEFGHIJKLMNOPQRSTUVWXYZ''"

definition ascii_lowercase :: string where
  "ascii_lowercase = ''abcdefghijklmnopqrstuvwxyz''"

definition lower_char :: "char \<Rightarrow> char" where
  "lower_char c = (case map_of (zip ascii_uppercase ascii_lowercase) c of
                     Some l \<Rightarrow> l | None \<Rightarrow> c)"

definition upper_char :: "char \<Rightarrow> char" where
  "upper_char c = (case map_of (zip ascii_lowercase ascii_uppercase) c of
                     Some u \<Rightarrow> u | None \<Rightarrow> c)"

definition lower :: "string \<Rightarrow> string" where
  "lower s = map lower_char s"

definition upper :: "string \<Rightarrow> string" where
  "upper s = map upper_char s"

text \<open>\<open>starts_with p s\<close>: \<open>s.startswith(p)\<close>.\<close>

fun starts_with :: "string \<Rightarrow> string \<Rightarrow> bool" where
  "starts_with [] s = True"
| "starts_with (p # ps) [] = False"
| "starts_with (p # ps) (c # cs) = (p = c \<and> starts_with ps cs)"

text \<open>\<open>str_in sub s\<close>: the Python test \<open>sub in s\<close> on two strings.\<close>

fun str_in :: "string \<Rightarrow> string \<Rightarrow> bool" where
  "str_in sub [] = (sub = [])"
| "str_in sub (c # cs) = (starts_with sub (c # cs) \<or> str_in sub cs)"

text \<open>\<open>str_nat n\<close>: \<open>str(n)\<close> for a natural number, in decimal.\<close>

definition digit_char :: "nat \<Rightarrow> char" where
  "digit_char d = ''0123456789'' ! d"

fun str_nat :: "nat \<Rightarrow> string" where
  "str_nat n = (if n < 10 then [digit_char n] else str_nat (n div 10) @ [digit_char (n mod 10)])"

declare str_nat.simps [simp del]

text \<open>
  \<open>re_search_lazy l r s\<close>: \<open>re.search\<close> with the pattern "\<open>l\<close>, then as few characters
  as possible (\<open>.*?\<close> under \<open>re.DOTALL\<close>), then \<open>r\<close>", for two literal characters: the
  match is \<open>None\<close> or the text from the first \<open>l\<close> up to the first \<open>r\<close> after it.
\<close>

definition re_search_lazy :: "char \<Rightarrow> char \<Rightarrow> string \<Rightarrow> string option" where
  "re_search_lazy l r s =
     (case dropWhile (\<lambda>c. c \<noteq> l) s of
        [] \<Rightarrow> None
      | _ # u \<Rightarrow> if r \<in> set u then Some (l # takeWhile (\<lambda>c. c \<noteq> r) u @ [r]) else None)"

section \<open>JSON values and \<open>json.loads\<close>\<close>

text \<open>
  The values \<open>json.loads\<close> builds. A number keeps the text it was written with; a dict
  keeps its members in the order of the text, and a lookup takes the last member with
  the key, as the dict built by the decoder does.
\<close>

datatype json =
    JNull
  | JBool bool
  | JNumber string
  | JString string
  | JArray "json list"
  | JObject "(string \<times> json) list"

definition dict_get :: "(string \<times> json) list \<Rightarrow> string \<Rightarrow> json \<Rightarrow> json" where
  "dict_get kvs k dflt = (case map_of (rev kvs) k of Some v \<Rightarrow> v | None \<Rightarrow> dflt)"

definition is_ws :: "char \<Rightarrow> bool" where
  "is_ws c = (c \<in> set [CHR '' '', CHR 0x09, CHR 0x0A, CHR 0x0D])"

definition skip_ws :: "string \<Rightarrow> string" where
  "skip_ws s = dropWhile is_ws s"

definition is_digit :: "char \<Rightarrow> bool" where
  "is_digit c = (c \<in> set ''0123456789'')"

definition hex_val :: "char \<Rightarrow> nat option" where
  "hex_val c = map_of (zip ''0123456789abcdefABCDEF''
                 [0, 1, 2, 3, 4, 5, 6, 7, 8, 9, 10, 11, 12, 13, 14, 15, 10, 11, 12, 13, 14, 15]) c"

text \<open>The value of the four hexadecimal digits of a \<open>\uXXXX\<close> escape.\<close>

definition hex4 :: "string \<Rightarrow> nat option" where
  "hex4 ds =
     (case map hex_val ds of
        [Some w, Some x, Some y, Some z] \<Rightarrow> Some (((w * 16 + x) * 16 + y) * 16 + z)
      | _ \<Rightarrow> None)"

text \<open>The UTF-8 bytes of a code point (a lone surrogate is written like any other).\<close>

definition utf8 :: "nat \<Rightarrow> string" where
  "utf8 cp =
     (if cp < 0x80 then [char_of cp]
      else if cp < 0x800 then
        [char_of (0xC0 + cp div 0x40), char_of (0x80 + cp mod 0x40)]
      else if cp < 0x10000 then
        [char_of (0xE0 + cp div 0x1000), char_of (0x80 + cp div 0x40 mod 0x40),
         char_of (0x80 + cp mod 0x40)]
      else
        [char_of (0xF0 + cp div 0x40000), char_of (0x80 + cp div 0x1000 mod 0x40),
         char_of (0x80 + cp div 0x40 mod 0x40), char_of (0x80 + cp mod 0x40)])"

definition unescape :: "char \<Rightarrow> char option" where
  "unescape e = map_of [(CHR 0x22, CHR 0x22), (CHR 0x5C, CHR 0x5C), (CHR ''/'', CHR ''/''),
                        (CHR ''b'', CHR 0x08), (CHR ''f'', CHR 0x0C), (CHR ''n'', CHR 0x0A),
                        (CHR ''r'', CHR 0x0D), (CHR ''t'', CHR 0x09)] e"

text \<open>
  \<open>scan_escape s\<close> reads an escape whose backslash has been read: the bytes it stands
  for and the number of characters of \<open>s\<close> it takes (one for a simple escape, five for
  \<open>uXXXX\<close>, eleven for a high surrogate with the low surrogate after it).
\<close>

definition scan_escape :: "string \<Rightarrow> (string \<times> nat) option" where
  "scan_escape s =
     (case s of
        [] \<Rightarrow> None
      | e # r \<Rightarrow>
          if e = CHR ''u'' then
            (case hex4 (take 4 r) of
               None \<Rightarrow> None
             | Some hi \<Rightarrow>
                 (case (if take 2 (drop 4 r) = [CHR 0x5C, CHR ''u'']
                        then hex4 (take 4 (drop 6 r)) else None) of
                    Some lo \<Rightarrow>
                      if 0xD800 \<le> hi \<and> hi \<le> 0xDBFF \<and> 0xDC00 \<le> lo \<and> lo \<le> 0xDFFF
                      then Some (utf8 (0x10000 + (hi - 0xD800) * 0x400 + (lo - 0xDC00)), 11)
                      else Some (utf8 hi, 5)
                  | None \<Rightarrow> Some (utf8 hi, 5)))
          else map_option (\<lambda>ch. ([ch], 1)) (unescape e))"

text \<open>
  \<open>scan_string s\<close> reads a JSON string whose opening quote has been read: the decoded
  text and what follows the closing quote. \<open>None\<close> is the decoder's \<open>JSONDecodeError\<close>
  (no closing quote, a raw control character, a bad escape).
\<close>

fun scan_string :: "string \<Rightarrow> (string \<times> string) option" where
  "scan_string [] = None"
| "scan_string (c # cs) =
     (if c = CHR 0x22 then Some ([], cs)
      else if c = CHR 0x5C then
        (case scan_escape cs of
           None \<Rightarrow> None
         | Some (d, k) \<Rightarrow> map_option (\<lambda>(t, rest). (d @ t, rest)) (scan_string (drop k cs)))
      else if (of_char c :: nat) < 0x20 then None
      else map_option (\<lambda>(t, rest). (c # t, rest)) (scan_string cs))"

text \<open>
  \<open>scan_number s\<close> reads the longest JSON number at the start of \<open>s\<close>: an optional minus,
  \<open>0\<close> or a digit sequence without a leading zero, then a fraction and an exponent when
  they are complete.
\<close>

definition scan_digits :: "string \<Rightarrow> string \<times> string" where
  "scan_digits s = (takeWhile is_digit s, dropWhile is_digit s)"

definition scan_int :: "string \<Rightarrow> (string \<times> string) option" where
  "scan_int s =
     (case s of
        [] \<Rightarrow> None
      | c # cs \<Rightarrow>
          if c = CHR ''0'' then Some ([c], cs)
          else if is_digit c then Some (c # fst (scan_digits cs), snd (scan_digits cs))
          else None)"

definition scan_frac :: "string \<Rightarrow> string \<times> string" where
  "scan_frac s =
     (case s of
        c # cs \<Rightarrow>
          if c = CHR ''.'' \<and> fst (scan_digits cs) \<noteq> []
          then (c # fst (scan_digits cs), snd (scan_digits cs)) else ([], s)
      | [] \<Rightarrow> ([], s))"

definition scan_exp :: "string \<Rightarrow> string \<times> string" where
  "scan_exp s =
     (case s of
        c # cs \<Rightarrow>
          if c = CHR ''e'' \<or> c = CHR ''E'' then
            (case cs of
               g # ds \<Rightarrow>
                 if (g = CHR ''+'' \<or> g = CHR ''-'') \<and> fst (scan_digits ds) \<noteq> []
                 then (c # g # fst (scan_digits ds), snd (scan_digits ds))
                 else if fst (scan_digits cs) \<noteq> []
                 then (c # fst (scan_digits cs), snd (scan_digits cs))
                 else ([], s)
             | [] \<Rightarrow> ([], s))
          else ([], s)
      | [] \<Rightarrow> ([], s))"

definition scan_number :: "string \<Rightarrow> (string \<times> string) option" where
  "scan_number s =
     (let (sign, s1) = (case s of c # cs \<Rightarrow> if c = CHR ''-'' then ([c], cs) else ([], s)
                                | [] \<Rightarrow> ([], s))
      in case scan_int s1 of
           None \<Rightarrow> None
         | Some (i, s2) \<Rightarrow>
             (let (f, s3) = scan_frac s2; (e, s4) = scan_exp s3
              in Some (sign @ i @ f @ e, s4)))"

text \<open>The literals of the decoder, Python's \<open>NaN\<close> and infinities among them.\<close>

definition scan_literal :: "string \<Rightarrow> (json \<times> string) option" where
  "scan_literal s =
     (if starts_with ''null'' s then Some (JNull, drop 4 s)
      else if starts_with ''true'' s then Some (JBool True, drop 4 s)
      else if starts_with ''false'' s then Some (JBool False, drop 5 s)
      else if starts_with ''NaN'' s then Some (JNumber ''NaN'', drop 3 s)
      else if starts_with ''Infinity'' s then Some (JNumber ''Infinity'', drop 8 s)
      else if starts_with ''-Infinity'' s then Some (JNumber ''-Infinity'', drop 9 s)
      else None)"

text \<open>
  The recursive descent of the decoder. The first argument bounds the depth of the
  calls; \<open>json_loads\<close> gives more than the text can use (\<open>json_loads_fuel\<close> below:
  a greater bound gives the same result). \<open>parse_value\<close> reads one value
  at the start of the text; \<open>parse_elements\<close> reads the elements of an array after its
  \<open>[\<close> up to the \<open>]\<close>; \<open>parse_members\<close> reads the members of an object after its \<open>{\<close> up
  to the \<open>}\<close>. \<open>None\<close> is \<open>JSONDecodeError\<close>.
\<close>

fun parse_value :: "nat \<Rightarrow> string \<Rightarrow> (json \<times> string) option"
  and parse_elements :: "nat \<Rightarrow> string \<Rightarrow> json list \<Rightarrow> (json \<times> string) option"
  and parse_members :: "nat \<Rightarrow> string \<Rightarrow> (string \<times> json) list \<Rightarrow> (json \<times> string) option"
where
  "parse_value 0 s = None"
| "parse_value (Suc n) s =
     (case s of
        [] \<Rightarrow> None
      | c # r \<Rightarrow>
          if c = CHR 0x22 then map_option (\<lambda>(t, rest). (JString t, rest)) (scan_string r)
          else if c = CHR ''{'' then
            (case skip_ws r of
               [] \<Rightarrow> None
             | d # r' \<Rightarrow> if d = CHR ''}'' then Some (JObject [], r')
                         else parse_members n (d # r') [])
          else if c = CHR ''['' then
            (case skip_ws r of
               [] \<Rightarrow> None
             | d # r' \<Rightarrow> if d = CHR '']'' then Some (JArray [], r')
                         else parse_elements n (d # r') [])
          else (case scan_literal s of
                  Some res \<Rightarrow> Some res
                | None \<Rightarrow> map_option (\<lambda>(t, rest). (JNumber t, rest)) (scan_number s)))"
| "parse_elements 0 s acc = None"
| "parse_elements (Suc n) s acc =
     (case parse_value n s of
        None \<Rightarrow> None
      | Some (v, r) \<Rightarrow>
          (case skip_ws r of
             [] \<Rightarrow> None
           | d # r' \<Rightarrow>
               if d = CHR '','' then parse_elements n (skip_ws r') (acc @ [v])
               else if d = CHR '']'' then Some (JArray (acc @ [v]), r')
               else None))"
| "parse_members 0 s acc = None"
| "parse_members (Suc n) s acc =
     (case s of
        [] \<Rightarrow> None
      | q # r \<Rightarrow>
          if q \<noteq> CHR 0x22 then None
          else
            (case scan_string r of
               None \<Rightarrow> None
             | Some (k, r1) \<Rightarrow>
                 (case skip_ws r1 of
                    [] \<Rightarrow> None
                  | c # r2 \<Rightarrow>
                      if c \<noteq> CHR '':'' then None
                      else
                        (case parse_value n (skip_ws r2) of
                           None \<Rightarrow> None
                         | Some (v, r3) \<Rightarrow>
                             (case skip_ws r3 of
                                [] \<Rightarrow> None
                              | d # r4 \<Rightarrow>
                                  if d = CHR '','' then parse_members n (skip_ws r4) (acc @ [(k, v)])
                                  else if d = CHR ''}'' then Some (JObject (acc @ [(k, v)]), r4)
                                  else None)))))"

text \<open>
  \<open>json.loads\<close>: one value between optional whitespace, and nothing after it. The limits
  of the interpreter (recursion depth, the digits of an integer) are not part of the
  model.
\<close>

definition json_loads :: "string \<Rightarrow> json option" where
  "json_loads s =
     (case parse_value (2 * length s + 2) (skip_ws s) of
        None \<Rightarrow> None
      | Some (v, rest) \<Rightarrow> if skip_ws rest = [] then Some v else None)"

text \<open>The name of the Python type of a decoded value, as error messages print it.\<close>

definition py_type_name :: "json \<Rightarrow> string" where
  "py_type_name v =
     (case v of
        JNull \<Rightarrow> ''NoneType''
      | JBool b \<Rightarrow> ''bool''
      | JNumber t \<Rightarrow> if list_all (\<lambda>c. is_digit c \<or> c = CHR ''-'') t then ''int'' else ''float''
      | JString t \<Rightarrow> ''str''
      | JArray xs \<Rightarrow> ''list''
      | JObject kvs \<Rightarrow> ''dict'')"

section \<open>Exceptions\<close>

text \<open>
  \<open>ServiceError m\<close> is an exception raised inside an external service (the HTTP client,
  the classifier, the embedding model, the vector store), with \<open>m\<close> its \<open>str()\<close>.
  \<open>CustomException e line path\<close> is the repository's wrapper: the wrapped exception and
  the line and file that \<open>sys.exc_info()\<close> reports when the wrapper is built. The text of
  pydantic's \<open>ValidationError\<close> is abbreviated to the field it rejects.
\<close>

datatype exception =
    ServiceError string
  | ZeroDivisionError
  | IndexError
  | AttributeError string
  | ValidationError string
  | CustomException exception nat string

fun str_exception :: "exception \<Rightarrow> string" where
  "str_exception (ServiceError m) = m"
| "str_exception ZeroDivisionError = ''float division by zero''"
| "str_exception IndexError = ''list index out of range''"
| "str_exception (AttributeError m) = m"
| "str_exception (ValidationError field) = ''1 validation error: '' @ field"
| "str_exception (CustomException e line path) =
     ''CustomException: '' @ str_exception e @ '' on line: '' @ str_nat line @ '' of '' @ path"

section \<open>Entities\<close>

record retrieval_entity =
  query :: string
  retrieved_documents :: "string list"
  similarity_scores :: "real list"
  sources :: "string list"

record fact_check_entity =
  original_input :: string
  claim :: string
  verdict :: string
  evidence :: "string list"
  reasoning :: string
  confidence_score :: "real option"

text \<open>
  A \<open>str\<close> field of a pydantic model (version 2) takes a \<open>str\<close> and rejects every
  other value with a \<open>ValidationError\<close>.
\<close>

definition validate_str :: "string \<Rightarrow> json \<Rightarrow> exception + string" where
  "validate_str field v = (case v of JString t \<Rightarrow> Inr t | _ \<Rightarrow> Inl (ValidationError field))"

definition RetrievalEntity ::
  "json \<Rightarrow> string list \<Rightarrow> real list \<Rightarrow> string list \<Rightarrow> exception + retrieval_entity" where
  "RetrievalEntity q docs scores srcs =
     (case validate_str ''query'' q of
        Inl e \<Rightarrow> Inl e
      | Inr q' \<Rightarrow> Inr \<lparr>query = q', retrieved_documents = docs,
                       similarity_scores = scores, sources = srcs\<rparr>)"

definition FactCheckEntity ::
  "string \<Rightarrow> json \<Rightarrow> json \<Rightarrow> string list \<Rightarrow> json \<Rightarrow> real option \<Rightarrow> exception + fact_check_entity" where
  "FactCheckEntity inp c v ev r conf =
     (case validate_str ''claim'' c of
        Inl e \<Rightarrow> Inl e
      | Inr c' \<Rightarrow>
          (case validate_str ''verdict'' v of
             Inl e \<Rightarrow> Inl e
           | Inr v' \<Rightarrow>
               (case validate_str ''reasoning'' r of
                  Inl e \<Rightarrow> Inl e
                | Inr r' \<Rightarrow> Inr \<lparr>original_input = inp, claim = c', verdict = v', evidence = ev,
                                 reasoning = r', confidence_score = conf\<rparr>)))"

section \<open>Configuration and external services\<close>

text \<open>
  The configuration object of the component. A prompt is the template with
  \<open>str.format\<close> applied: a function of the texts it is filled with.
\<close>

record config =
  ollama_base_url :: string
  extraction_model :: string
  verification_model :: string
  claim_detection_model :: string
  top_k_results :: nat
  extraction_prompt :: "string \<Rightarrow> string"
  verification_prompt :: "string \<Rightarrow> string \<Rightarrow> string"

definition EXTRACTION_PROMPT :: "string \<Rightarrow> string" where
  "EXTRACTION_PROMPT input_text =
     ''\<newline>You are a claim extraction assistant. Extract the main factual claims from the following text.\<newline>''
     @ ''Return ONLY the key claims as a JSON array of strings.\<newline>\<newline>Text: '' @ input_text
     @ ''\<newline>\<newline>Output format: [\"claim1\", \"claim2\", ...]\<newline>''"

definition VERIFICATION_PROMPT :: "string \<Rightarrow> string \<Rightarrow> string" where
  "VERIFICATION_PROMPT c ev =
     ''\<newline>You are a fact-checking assistant. Compare the claim against the retrieved evidence and ''
     @ ''determine if the claim is True, False, or Unverifiable.\<newline>\<newline>Claim: '' @ c
     @ ''\<newline>\<newline>Retrieved Evidence:\<newline>'' @ ev
     @ ''\<newline>\<newline>Analyze the claim against the evidence and respond in the following JSON format:\<newline>''
     @ ''{\<newline>    \"verdict\": \"True\" | \"False\" | \"Unverifiable\",\<newline>''
     @ ''    \"reasoning\": \"Your detailed explanation of why this verdict was chosen\"\<newline>}\<newline>''"

definition FactCheckingConfigInstance :: config where
  "FactCheckingConfigInstance =
     \<lparr>ollama_base_url = ''http://localhost:11434'',
      extraction_model = ''gemma:7b'',
      verification_model = ''deepseek-r1:7b'',
      claim_detection_model = ''Nithiwat/bert-base_claimbuster'',
      top_k_results = 3,
      extraction_prompt = EXTRACTION_PROMPT,
      verification_prompt = VERIFICATION_PROMPT\<rparr>"

text \<open>One match of a vector-store query: the document, its distance and its metadata.\<close>

record hit =
  document :: string
  distance :: real
  metadata :: "(string \<times> string) list"

text \<open>
  The services the component calls. Each returns its value or the exception it raises;
  a model that is loaded on first use fails with the exception of its loader.
  \<^item> \<open>claim_detector text\<close>: the first result of the text-classification pipeline, as the
    values of its keys \<open>label\<close> and \<open>score\<close> where present;
  \<^item> \<open>http_post url model prompt\<close>: the POST to Ollama's \<open>/api/generate\<close>, giving the field
    \<open>response\<close> of the reply where present;
  \<^item> \<open>encode claim\<close>: the embedding of the claim;
  \<^item> \<open>chroma_query embedding k\<close>: the \<open>k\<close> nearest records of the collection;
  \<^item> \<open>exc_info e\<close>: the line and file of the traceback of \<open>e\<close> where it is caught.

  Floating-point numbers are modelled as real numbers.
\<close>

record services =
  claim_detector :: "string \<Rightarrow> exception + (string option \<times> real option)"
  http_post :: "string \<Rightarrow> string \<Rightarrow> string \<Rightarrow> exception + string option"
  encode :: "json \<Rightarrow> exception + real list"
  chroma_query :: "real list \<Rightarrow> nat \<Rightarrow> exception + hit list"
  exc_info :: "exception \<Rightarrow> nat \<times> string"

text \<open>\<open>raise CustomException(e, sys)\<close>.\<close>

definition raise_CustomException :: "(exception \<Rightarrow> nat \<times> string) \<Rightarrow> exception \<Rightarrow> exception" where
  "raise_CustomException info e = (case info e of (line, path) \<Rightarrow> CustomException e line path)"

section \<open>The fact-checking component\<close>

definition call_ollama :: "config \<Rightarrow> services \<Rightarrow> string \<Rightarrow> string \<Rightarrow> exception + string" where
  "call_ollama cfg sv model prompt =
     (case http_post sv (ollama_base_url cfg @ ''/api/generate'') model prompt of
        Inl e \<Rightarrow> Inl (raise_CustomException (exc_info sv) e)
      | Inr reply \<Rightarrow> Inr (case reply of Some response \<Rightarrow> response | None \<Rightarrow> []))"

definition detect_claim :: "services \<Rightarrow> string \<Rightarrow> bool \<times> real" where
  "detect_claim sv text =
     (case claim_detector sv text of
        Inl e \<Rightarrow> (True, 0.5)
      | Inr (label_opt, score_opt) \<Rightarrow>
          (let label = (case label_opt of Some l \<Rightarrow> l | None \<Rightarrow> []);
               score = (case score_opt of Some s \<Rightarrow> s | None \<Rightarrow> 0.0);
               is_claim_worthy = (str_in ''CFS'' (upper label) \<or> score > 0.5)
           in (is_claim_worthy, score)))"

text \<open>
  \<open>extract_claims\<close>. The matched text starts with \<open>[\<close>, so a value decoded from it is a
  list (\<open>matched_bracket_is_list\<close> below); the branch of another value is never taken.
\<close>

definition extract_claims :: "config \<Rightarrow> services \<Rightarrow> string \<Rightarrow> json list" where
  "extract_claims cfg sv text =
     (case call_ollama cfg sv (extraction_model cfg) (extraction_prompt cfg text) of
        Inl e \<Rightarrow> [JString text]
      | Inr response \<Rightarrow>
          (case re_search_lazy (CHR ''['') (CHR '']'') response of
             Some m \<Rightarrow>
               (case json_loads m of
                  Some (JArray claims) \<Rightarrow> claims
                | Some _ \<Rightarrow> [JString text]
                | None \<Rightarrow> [JString text])
           | None \<Rightarrow> [JString text]))"

text \<open>\<open>1 / (1 + d)\<close>, which raises where the divisor is zero.\<close>

definition similarity :: "real \<Rightarrow> exception + real" where
  "similarity d = (if 1 + d = 0 then Inl ZeroDivisionError else Inr (1 / (1 + d)))"

fun similarity_list :: "real list \<Rightarrow> exception + real list" where
  "similarity_list [] = Inr []"
| "similarity_list (d # ds) =
     (case similarity d of
        Inl e \<Rightarrow> Inl e
      | Inr s \<Rightarrow> (case similarity_list ds of Inl e \<Rightarrow> Inl e | Inr ss \<Rightarrow> Inr (s # ss)))"

definition source_of :: "(string \<times> string) list \<Rightarrow> string" where
  "source_of m = (case map_of m ''source'' of Some s \<Rightarrow> s | None \<Rightarrow> ''Unknown'')"

definition retrieve_facts :: "config \<Rightarrow> services \<Rightarrow> json \<Rightarrow> exception + retrieval_entity" where
  "retrieve_facts cfg sv c =
     (case (case encode sv c of
              Inl e \<Rightarrow> Inl e
            | Inr query_embedding \<Rightarrow>
                (case chroma_query sv query_embedding (top_k_results cfg) of
                   Inl e \<Rightarrow> Inl e
                 | Inr results \<Rightarrow>
                     (let documents = map document results;
                          distances = map distance results;
                          metadatas = map metadata results
                      in case similarity_list distances of
                           Inl e \<Rightarrow> Inl e
                         | Inr scores \<Rightarrow>
                             RetrievalEntity c documents scores (map source_of metadatas)))) of
        Inl e \<Rightarrow> Inl (raise_CustomException (exc_info sv) e)
      | Inr r \<Rightarrow> Inr r)"

text \<open>\<open>sep.join(xs)\<close>.\<close>

fun join :: "string \<Rightarrow> string list \<Rightarrow> string" where
  "join sep [] = []"
| "join sep [x] = x"
| "join sep (x # y # ys) = x @ sep @ join sep (y # ys)"

text \<open>The keyword scan of \<open>verify_claim\<close> on a response that gave no JSON object.\<close>

definition verdict_fallback :: "string \<Rightarrow> json \<times> json" where
  "verdict_fallback response =
     (let response_lower = lower response
      in if str_in ''true'' response_lower \<and> \<not> str_in ''false'' response_lower
         then (JString ''True'', JString response)
         else if str_in ''false'' response_lower then (JString ''False'', JString response)
         else (JString ''Unverifiable'', JString response))"

text \<open>
  \<open>verify_claim\<close>. The matched text starts with \<open>{\<close>, so a value decoded from it is a
  dict (\<open>matched_brace_is_dict\<close> below) and the branch of another value is never
  taken; there \<open>result.get\<close> would raise \<open>AttributeError\<close> into the outer handler.
\<close>

definition verify_claim :: "config \<Rightarrow> services \<Rightarrow> string \<Rightarrow> string list \<Rightarrow> json \<times> json" where
  "verify_claim cfg sv c ev =
     (let evidence_text = join ''\<newline>'' (map (\<lambda>e. ''- '' @ e) ev);
          prompt = verification_prompt cfg c evidence_text
      in case call_ollama cfg sv (verification_model cfg) prompt of
           Inl e \<Rightarrow> (JString ''Unverifiable'',
                     JString (''Error during verification: '' @ str_exception e))
         | Inr response \<Rightarrow>
             (case re_search_lazy (CHR ''{'') (CHR ''}'') response of
                Some m \<Rightarrow>
                  (case json_loads m of
                     Some (JObject result) \<Rightarrow>
                       (dict_get result ''verdict'' (JString ''Unverifiable''),
                        dict_get result ''reasoning'' (JString ''Unable to determine.''))
                   | Some v \<Rightarrow>
                       (JString ''Unverifiable'',
                        JString (''Error during verification: '' @ str_exception
                          (AttributeError ([CHR 0x27] @ py_type_name v @ [CHR 0x27]
                             @ '' object has no attribute '' @ [CHR 0x27] @ ''get'' @ [CHR 0x27]))))
                   | None \<Rightarrow> verdict_fallback response)
              | None \<Rightarrow> verdict_fallback response))"

text \<open>The subscription \<open>xs[0]\<close>: an \<open>IndexError\<close> on the empty list.\<close>

definition item0 :: "'a list \<Rightarrow> exception + 'a" where
  "item0 xs = (if xs = [] then Inl IndexError else Inr (hd xs))"

text \<open>\<open>max(xs) if xs else 0.0\<close>.\<close>

definition max_or_zero :: "real list \<Rightarrow> real" where
  "max_or_zero xs = (case xs of [] \<Rightarrow> 0.0 | x # ys \<Rightarrow> fold max ys x)"

text \<open>The methods of the component that \<open>run\<close> invokes, in the order of the calls.\<close>

datatype call = Call_detect_claim | Call_extract_claims | Call_retrieve_facts | Call_verify_claim

definition NOT_CLAIM_WORTHY :: string where
  "NOT_CLAIM_WORTHY =
     ''The input does not appear to contain a factual claim that can be verified.''"

text \<open>
  Steps 3 and 4 of \<open>run\<close> and the assembly of the result, for the main claim chosen in
  step 2. \<open>retrieve_facts\<close> returns only for a \<open>str\<close> claim, whose text is the \<open>query\<close>
  of its entity: \<open>verify_claim\<close> is called on that text.
\<close>

definition check_main_claim ::
  "config \<Rightarrow> services \<Rightarrow> string \<Rightarrow> json \<Rightarrow> call list \<times> (exception + fact_check_entity)" where
  "check_main_claim cfg sv input_text main_claim =
     (case retrieve_facts cfg sv main_claim of
        Inl e \<Rightarrow> ([Call_retrieve_facts], Inl (raise_CustomException (exc_info sv) e))
      | Inr retrieval_result \<Rightarrow>
          (case verify_claim cfg sv (query retrieval_result)
                  (retrieved_documents retrieval_result) of
             (verdict', reasoning') \<Rightarrow>
               ([Call_retrieve_facts, Call_verify_claim],
                case FactCheckEntity input_text main_claim verdict'
                       (retrieved_documents retrieval_result) reasoning'
                       (Some (max_or_zero (similarity_scores retrieval_result))) of
                  Inl e \<Rightarrow> Inl (raise_CustomException (exc_info sv) e)
                | Inr result \<Rightarrow> Inr result)))"

definition run :: "config \<Rightarrow> services \<Rightarrow> string \<Rightarrow> call list \<times> (exception + fact_check_entity)" where
  "run cfg sv input_text =
     (case detect_claim sv input_text of
        (is_claim_worthy, claim_score) \<Rightarrow>
          if \<not> is_claim_worthy then
            ([Call_detect_claim],
             case FactCheckEntity input_text (JString input_text) (JString ''Unverifiable'') []
                    (JString NOT_CLAIM_WORTHY) (Some claim_score) of
               Inl e \<Rightarrow> Inl (raise_CustomException (exc_info sv) e)
             | Inr result \<Rightarrow> Inr result)
          else
            (let claims = extract_claims cfg sv input_text
             in case (if claims \<noteq> [] then item0 claims else Inr (JString input_text)) of
                  Inl e \<Rightarrow> ([Call_detect_claim, Call_extract_claims],
                            Inl (raise_CustomException (exc_info sv) e))
                | Inr main_claim \<Rightarrow>
                    (case check_main_claim cfg sv input_text main_claim of
                       (calls, outcome) \<Rightarrow>
                         (Call_detect_claim # Call_extract_claims # calls, outcome))))"

section \<open>The data-ingestion component\<close>

text \<open>A row of the CSV file, as \<open>_load_csv_data\<close> builds it.\<close>

record fact =
  fact_id :: string
  statement :: string
  source :: string
  date :: string
  category :: string

text \<open>
  The Chroma collection is the list of its records. \<open>collection.count()\<close> is their
  number. \<open>collection.add\<close> rejects an empty batch, lists of different lengths and a
  batch that repeats an id (the texts of these errors are abbreviated); it stores the
  records of the batch whose id the collection does not hold yet.
\<close>

record stored_record =
  record_id :: string
  record_document :: string
  record_embedding :: "real list"
  record_metadata :: "(string \<times> string) list"

type_synonym collection = "stored_record list"

definition collection_count :: "collection \<Rightarrow> nat" where
  "collection_count coll = length coll"

fun zip_records ::
  "string list \<Rightarrow> real list list \<Rightarrow> string list \<Rightarrow> (string \<times> string) list list \<Rightarrow> stored_record list" where
  "zip_records (d # ds) (e # es) (i # is) (m # ms) =
     \<lparr>record_id = i, record_document = d, record_embedding = e, record_metadata = m\<rparr>
       # zip_records ds es is ms"
| "zip_records _ _ _ _ = []"

definition collection_add ::
  "collection \<Rightarrow> string list \<Rightarrow> real list list \<Rightarrow> string list \<Rightarrow> (string \<times> string) list list
     \<Rightarrow> exception + collection" where
  "collection_add coll documents embeddings ids metadatas =
     (if ids = [] then Inl (ServiceError ''Expected IDs to be a non-empty list'')
      else if length documents \<noteq> length ids \<or> length embeddings \<noteq> length ids
              \<or> length metadatas \<noteq> length ids
      then Inl (ServiceError ''Unequal lengths'')
      else if \<not> distinct ids then Inl (ServiceError ''Expected IDs to be unique'')
      else Inr (coll @ filter (\<lambda>r. record_id r \<notin> record_id ` set coll)
                         (zip_records documents embeddings ids metadatas)))"

text \<open>
  The services of the ingestion: \<open>encode_batch documents\<close> is the embedding model on the
  list of statements, \<open>ingestion_exc_info\<close> the traceback position of a caught exception.
\<close>

record ingestion_services =
  encode_batch :: "string list \<Rightarrow> exception + real list list"
  ingestion_exc_info :: "exception \<Rightarrow> nat \<times> string"

text \<open>
  \<open>_embed_and_store\<close>, on the collection of the component: the collection after the call
  and the count returned, or the exception raised.
\<close>

definition embed_and_store ::
  "ingestion_services \<Rightarrow> collection \<Rightarrow> fact list \<Rightarrow> exception + (collection \<times> nat)" where
  "embed_and_store sv coll facts =
     (let existing_count = collection_count coll
      in if existing_count > 0 then Inr (coll, existing_count)
         else
           (let documents = map statement facts;
                ids = map (\<lambda>f. ''fact_'' @ fact_id f) facts;
                metadatas = map (\<lambda>f. [(''source'', source f), (''date'', date f),
                                        (''category'', category f)]) facts
            in case encode_batch sv documents of
                 Inl e \<Rightarrow> Inl (raise_CustomException (ingestion_exc_info sv) e)
               | Inr embeddings \<Rightarrow>
                   (case collection_add coll documents embeddings ids metadatas of
                      Inl e \<Rightarrow> Inl (raise_CustomException (ingestion_exc_info sv) e)
                    | Inr coll' \<Rightarrow> Inr (coll', length documents))))"

section \<open>The wording of the specification, and example services\<close>


text \<open>
  Services for the examples: a classifier with one answer, an Ollama server with one
  reply to the extraction model and one to the verification model, and a store that
  answers every query with the first \<open>k\<close> of a list of matches.
\<close>

definition example_services ::
  "(string option \<times> real option) \<Rightarrow> (exception + string option) \<Rightarrow> (exception + string option)
     \<Rightarrow> hit list \<Rightarrow> services" where
  "example_services detection extraction_reply verification_reply hits =
     \<lparr>claim_detector = (\<lambda>text. Inr detection),
      http_post = (\<lambda>url model prompt. if model = ''gemma:7b'' then extraction_reply
                                       else verification_reply),
      encode = (\<lambda>c. Inr [0.1, 0.2]),
      chroma_query = (\<lambda>embedding k. Inr (take k hits)),
      exc_info = (\<lambda>e. (103, ''fact_checking.py''))\<rparr>"

definition example_hits :: "hit list" where
  "example_hits =
     [\<lparr>document = ''India is the fifth largest economy.'', distance = 0.25,
       metadata = [(''source'', ''PIB'')]\<rparr>,
      \<lparr>document = ''India has 28 states.'', distance = 1, metadata = []\<rparr>]"

definition example_ingestion_services :: ingestion_services where
  "example_ingestion_services =
     \<lparr>encode_batch = (\<lambda>documents. Inr (map (\<lambda>d. [0.1, 0.2]) documents)),
      ingestion_exc_info = (\<lambda>e. (123, ''data_ingestion.py''))\<rparr>"

definition example_facts :: "fact list" where
  "example_facts =
     [\<lparr>fact_id = ''1'', statement = ''India is the fifth largest economy.'', source = ''PIB'',
       date = ''2022'', category = ''economy''\<rparr>,
      \<lparr>fact_id = ''2'', statement = ''India has 28 states.'', source = ''PIB'',
       date = ''2021'', category = ''polity''\<rparr>]"

section \<open>Properties of the decoder and of the components\<close>

lemma skip_ws_length: "length (skip_ws s) \<le> length s"
  by (simp add: skip_ws_def length_dropWhile_le)

lemma skip_ws_Cons_length: "skip_ws s = d # r \<Longrightarrow> length r < length s"
  using skip_ws_length[of s] by simp

lemma scan_string_shorter: "scan_string s = Some (t, r) \<Longrightarrow> length r < length s"
proof (induction s arbitrary: t r rule: scan_string.induct)
  case 1
  then show ?case by simp
next
  case (2 c cs)
  show ?case
  proof (cases "c = CHR 0x22")
    case True
    with "2.prems" show ?thesis by simp
  next
    case q: False
    show ?thesis
    proof (cases "c = CHR 0x5C")
      case True
      with q "2.prems" obtain d k t' where
        e: "scan_escape cs = Some (d, k)" and s: "scan_string (drop k cs) = Some (t', r)"
        by (auto split: option.splits)
      from "2.IH"(1)[OF q True e[THEN sym, THEN sym] refl s] have "length r < length (drop k cs)" .
      then show ?thesis by simp
    next
      case False
      with q "2.prems" obtain t' where s: "scan_string cs = Some (t', r)"
        by (auto split: if_splits)
      from q False "2.prems" have "\<not> (of_char c :: nat) < 0x20" by (auto split: if_splits)
      from "2.IH"(2)[OF q False this s] show ?thesis by simp
    qed
  qed
qed


lemma starts_with_nonempty: "starts_with (p # ps) s \<Longrightarrow> s \<noteq> []"
  by (cases s) auto

lemma scan_literal_shorter: "scan_literal s = Some (v, r) \<Longrightarrow> length r < length s"
  by (auto simp: scan_literal_def split: if_splits dest!: starts_with_nonempty)

lemma scan_digits_length: "length (snd (scan_digits s)) \<le> length s"
  by (simp add: scan_digits_def length_dropWhile_le)

lemma scan_int_shorter: "scan_int s = Some (t, r) \<Longrightarrow> length r < length s"
  using scan_digits_length
  by (auto simp: scan_int_def less_Suc_eq_le split: list.splits if_splits)

lemma scan_frac_length: "length (snd (scan_frac s)) \<le> length s"
  using scan_digits_length
  by (auto simp: scan_frac_def le_SucI split: list.splits)

lemma scan_exp_length: "length (snd (scan_exp s)) \<le> length s"
proof (cases s)
  case Nil
  then show ?thesis by (simp add: scan_exp_def)
next
  case (Cons c cs)
  show ?thesis
  proof (cases cs)
    case Nil
    with Cons show ?thesis by (simp add: scan_exp_def)
  next
    case (Cons g ds)
    have "length (snd (scan_digits ds)) \<le> length ds" "length (snd (scan_digits cs)) \<le> length cs"
      by (rule scan_digits_length)+
    with Cons \<open>s = c # cs\<close> show ?thesis by (simp add: scan_exp_def)
  qed
qed

lemma scan_number_shorter: "scan_number s = Some (t, r) \<Longrightarrow> length r < length s"
proof -
  assume a: "scan_number s = Some (t, r)"
  define s1 where "s1 = (case s of c # cs \<Rightarrow> if c = CHR ''-'' then cs else s | [] \<Rightarrow> s)"
  have l1: "length s1 \<le> length s" by (auto simp: s1_def split: list.splits)
  from a obtain i s2 where i: "scan_int s1 = Some (i, s2)"
    and r: "r = snd (scan_exp (snd (scan_frac s2)))"
    by (auto simp: scan_number_def s1_def Let_def split: list.splits if_splits option.splits prod.splits)
  from scan_int_shorter[OF i] have "length s2 < length s1" .
  moreover have "length r \<le> length s2"
    unfolding r using scan_exp_length[of "snd (scan_frac s2)"] scan_frac_length[of s2] by simp
  ultimately show ?thesis using l1 by simp
qed


lemma parse_shorter:
  "(parse_value n s = Some (v, r) \<longrightarrow> length r < length s)
   \<and> (parse_elements n s acc = Some (v, r) \<longrightarrow> length r < length s)
   \<and> (parse_members n s kvs = Some (v, r) \<longrightarrow> length r < length s)"
proof (induction n arbitrary: s v r acc kvs)
  case 0
  show ?case by simp
next
  case (Suc n)
  have ihv: "\<And>s v r. parse_value n s = Some (v, r) \<Longrightarrow> length r < length s"
    and ihe: "\<And>s v r acc. parse_elements n s acc = Some (v, r) \<Longrightarrow> length r < length s"
    and ihm: "\<And>s v r kvs. parse_members n s kvs = Some (v, r) \<Longrightarrow> length r < length s"
    using Suc.IH by blast+
  have v: "parse_value (Suc n) s = Some (v, r) \<longrightarrow> length r < length s"
  proof
    assume a: "parse_value (Suc n) s = Some (v, r)"
    then obtain c u where s: "s = c # u" by (cases s) auto
    consider (str) "c = CHR 0x22" | (obj) "c \<noteq> CHR 0x22" "c = CHR ''{''"
      | (arr) "c \<noteq> CHR 0x22" "c \<noteq> CHR ''{''" "c = CHR ''[''"
      | (other) "c \<noteq> CHR 0x22" "c \<noteq> CHR ''{''" "c \<noteq> CHR ''[''" by blast
    then show "length r < length s"
    proof cases
      case str
      with a s obtain t where "scan_string u = Some (t, r)" by auto
      from scan_string_shorter[OF this] s show ?thesis by simp
    next
      case obj
      with a s obtain d u' where w: "skip_ws u = d # u'"
        and b: "(d = CHR ''}'' \<and> r = u') \<or> parse_members n (d # u') [] = Some (v, r)"
        by (auto split: list.splits if_splits)
      from skip_ws_length[of u] w have l: "length (d # u') \<le> length u" by simp
      from b show ?thesis
      proof
        assume "d = CHR ''}'' \<and> r = u'" with l s show ?thesis by simp
      next
        assume "parse_members n (d # u') [] = Some (v, r)"
        from ihm[OF this] l s show ?thesis by simp
      qed
    next
      case arr
      with a s obtain d u' where w: "skip_ws u = d # u'"
        and b: "(d = CHR '']'' \<and> r = u') \<or> parse_elements n (d # u') [] = Some (v, r)"
        by (auto split: list.splits if_splits)
      from skip_ws_length[of u] w have l: "length (d # u') \<le> length u" by simp
      from b show ?thesis
      proof
        assume "d = CHR '']'' \<and> r = u'" with l s show ?thesis by simp
      next
        assume "parse_elements n (d # u') [] = Some (v, r)"
        from ihe[OF this] l s show ?thesis by simp
      qed
    next
      case other
      with a s have "scan_literal s = Some (v, r) \<or> (\<exists>t. scan_number s = Some (t, r))"
        by (auto split: option.splits)
      then show ?thesis using scan_literal_shorter scan_number_shorter by blast
    qed
  qed
  have e: "parse_elements (Suc n) s acc = Some (v, r) \<longrightarrow> length r < length s"
  proof
    assume a: "parse_elements (Suc n) s acc = Some (v, r)"
    then obtain x r1 d r2 where pv: "parse_value n s = Some (x, r1)" and w: "skip_ws r1 = d # r2"
      and b: "(d = CHR '','' \<and> parse_elements n (skip_ws r2) (acc @ [x]) = Some (v, r))
              \<or> (d = CHR '']'' \<and> r = r2)"
      by (auto split: option.splits list.splits if_splits)
    from ihv[OF pv] skip_ws_Cons_length[OF w] have l: "length r2 < length s" by simp
    from b show "length r < length s"
    proof
      assume "d = CHR '','' \<and> parse_elements n (skip_ws r2) (acc @ [x]) = Some (v, r)"
      then have "length r < length (skip_ws r2)" using ihe by blast
      with skip_ws_length[of r2] l show ?thesis by simp
    next
      assume "d = CHR '']'' \<and> r = r2" with l show ?thesis by simp
    qed
  qed
  have m: "parse_members (Suc n) s kvs = Some (v, r) \<longrightarrow> length r < length s"
  proof
    assume a: "parse_members (Suc n) s kvs = Some (v, r)"
    then obtain q u where s: "s = q # u" by (cases s) auto
    from a s obtain k r1 c r2 x r3 d r4 where
      ss: "scan_string u = Some (k, r1)" and w1: "skip_ws r1 = c # r2"
      and pv: "parse_value n (skip_ws r2) = Some (x, r3)" and w3: "skip_ws r3 = d # r4"
      and b: "(d = CHR '','' \<and> parse_members n (skip_ws r4) (kvs @ [(k, x)]) = Some (v, r))
              \<or> (d = CHR ''}'' \<and> r = r4)"
      by (auto split: option.splits list.splits if_splits)
    from scan_string_shorter[OF ss] skip_ws_Cons_length[OF w1] skip_ws_length[of r2]
      ihv[OF pv] skip_ws_Cons_length[OF w3] s
    have l: "length r4 < length s" by simp
    from b show "length r < length s"
    proof
      assume "d = CHR '','' \<and> parse_members n (skip_ws r4) (kvs @ [(k, x)]) = Some (v, r)"
      then have "length r < length (skip_ws r4)" using ihm by blast
      with skip_ws_length[of r4] l show ?thesis by simp
    next
      assume "d = CHR ''}'' \<and> r = r4" with l show ?thesis by simp
    qed
  qed
  from v e m show ?case by blast
qed


lemmas parse_simps_del = parse_value.simps parse_elements.simps parse_members.simps

lemma parse_fuel_step:
  "(2 * length s + 1 \<le> n \<longrightarrow> parse_value (Suc n) s = parse_value n s)
   \<and> (2 * length s + 2 \<le> n \<longrightarrow> parse_elements (Suc n) s acc = parse_elements n s acc)
   \<and> (2 * length s + 2 \<le> n \<longrightarrow> parse_members (Suc n) s kvs = parse_members n s kvs)"
proof (induction n arbitrary: s acc kvs)
  case 0
  show ?case by simp
next
  case (Suc n)
  have ihv: "\<And>s. 2 * length s + 1 \<le> n \<Longrightarrow> parse_value (Suc n) s = parse_value n s"
    and ihe: "\<And>s acc. 2 * length s + 2 \<le> n \<Longrightarrow>
                parse_elements (Suc n) s acc = parse_elements n s acc"
    and ihm: "\<And>s kvs. 2 * length s + 2 \<le> n \<Longrightarrow>
                parse_members (Suc n) s kvs = parse_members n s kvs"
    using Suc.IH by blast+
  have v: "2 * length s + 1 \<le> Suc n \<longrightarrow> parse_value (Suc (Suc n)) s = parse_value (Suc n) s"
  proof
    assume b: "2 * length s + 1 \<le> Suc n"
    define F where "F k = (case s of
        [] \<Rightarrow> None
      | c # r \<Rightarrow>
          if c = CHR 0x22 then map_option (\<lambda>(t, rest). (JString t, rest)) (scan_string r)
          else if c = CHR ''{'' then
            (case skip_ws r of
               [] \<Rightarrow> None
             | d # r' \<Rightarrow> if d = CHR ''}'' then Some (JObject [], r')
                         else parse_members k (d # r') [])
          else if c = CHR ''['' then
            (case skip_ws r of
               [] \<Rightarrow> None
             | d # r' \<Rightarrow> if d = CHR '']'' then Some (JArray [], r')
                         else parse_elements k (d # r') [])
          else (case scan_literal s of
                  Some res \<Rightarrow> Some res
                | None \<Rightarrow> map_option (\<lambda>(t, rest). (JNumber t, rest)) (scan_number s)))" for k
    have u: "parse_value (Suc k) s = F k" for k
      unfolding F_def by (rule parse_value.simps(2))
    have rec: "parse_members (Suc n) (d # r') [] = parse_members n (d # r') []
               \<and> parse_elements (Suc n) (d # r') [] = parse_elements n (d # r') []"
      if "s = c # r" "skip_ws r = d # r'" for c r d r'
    proof -
      from skip_ws_length[of r] that have "length (d # r') < length s" by simp
      with b have "2 * length (d # r') + 2 \<le> n" by simp
      then show ?thesis using ihe ihm by blast
    qed
    have "F (Suc n) = F n"
      unfolding F_def
      by (auto split: list.splits simp: rec simp del: parse_simps_del)
    then show "parse_value (Suc (Suc n)) s = parse_value (Suc n) s" by (simp only: u)
  qed
  have e: "2 * length s + 2 \<le> Suc n \<longrightarrow>
             parse_elements (Suc (Suc n)) s acc = parse_elements (Suc n) s acc"
  proof
    assume b: "2 * length s + 2 \<le> Suc n"
    define F where "F k = (case parse_value k s of
        None \<Rightarrow> None
      | Some (v, r) \<Rightarrow>
          (case skip_ws r of
             [] \<Rightarrow> None
           | d # r' \<Rightarrow>
               if d = CHR '','' then parse_elements k (skip_ws r') (acc @ [v])
               else if d = CHR '']'' then Some (JArray (acc @ [v]), r')
               else None))" for k
    have u: "parse_elements (Suc k) s acc = F k" for k
      unfolding F_def by (rule parse_elements.simps(2))
    from b have pv: "parse_value (Suc n) s = parse_value n s" by (intro ihv) simp
    have rec: "parse_elements (Suc n) (skip_ws r') a = parse_elements n (skip_ws r') a"
      if "parse_value n s = Some (x, r)" "skip_ws r = d # r'" for x r d r' a
    proof -
      from parse_shorter[of n s x r] that(1) have "length r < length s" by blast
      with skip_ws_Cons_length[OF that(2)] skip_ws_length[of r']
      have "length (skip_ws r') + 2 \<le> length s" by simp
      with b have "2 * length (skip_ws r') + 2 \<le> n" by simp
      then show ?thesis by (rule ihe)
    qed
    have "F (Suc n) = F n"
      unfolding F_def pv
      by (auto split: option.splits list.splits simp: rec simp del: parse_simps_del)
    then show "parse_elements (Suc (Suc n)) s acc = parse_elements (Suc n) s acc"
      by (simp only: u)
  qed
  have m: "2 * length s + 2 \<le> Suc n \<longrightarrow>
             parse_members (Suc (Suc n)) s kvs = parse_members (Suc n) s kvs"
  proof
    assume b: "2 * length s + 2 \<le> Suc n"
    define F where "F k = (case s of
        [] \<Rightarrow> None
      | q # r \<Rightarrow>
          if q \<noteq> CHR 0x22 then None
          else
            (case scan_string r of
               None \<Rightarrow> None
             | Some (k', r1) \<Rightarrow>
                 (case skip_ws r1 of
                    [] \<Rightarrow> None
                  | c # r2 \<Rightarrow>
                      if c \<noteq> CHR '':'' then None
                      else
                        (case parse_value k (skip_ws r2) of
                           None \<Rightarrow> None
                         | Some (v, r3) \<Rightarrow>
                             (case skip_ws r3 of
                                [] \<Rightarrow> None
                              | d # r4 \<Rightarrow>
                                  if d = CHR '','' then parse_members k (skip_ws r4) (kvs @ [(k', v)])
                                  else if d = CHR ''}'' then Some (JObject (kvs @ [(k', v)]), r4)
                                  else None)))))" for k
    have u: "parse_members (Suc k) s kvs = F k" for k
      unfolding F_def by (rule parse_members.simps(2))
    have pv: "parse_value (Suc n) (skip_ws r2) = parse_value n (skip_ws r2)"
      if "s = q # r" "scan_string r = Some (k', r1)" "skip_ws r1 = c # r2" for q r k' r1 c r2
    proof -
      from scan_string_shorter[OF that(2)] skip_ws_Cons_length[OF that(3)] skip_ws_length[of r2] that(1)
      have "length (skip_ws r2) + 2 \<le> length s" by simp
      with b have "2 * length (skip_ws r2) + 1 \<le> n" by simp
      then show ?thesis by (rule ihv)
    qed
    have rec: "parse_members (Suc n) (skip_ws r4) a = parse_members n (skip_ws r4) a"
      if "s = q # r" "scan_string r = Some (k', r1)" "skip_ws r1 = c # r2"
         "parse_value n (skip_ws r2) = Some (x, r3)" "skip_ws r3 = d # r4"
      for q r k' r1 c r2 x r3 d r4 a
    proof -
      from parse_shorter[of n "skip_ws r2" x r3] that(4) have "length r3 < length (skip_ws r2)"
        by blast
      with scan_string_shorter[OF that(2)] skip_ws_Cons_length[OF that(3)] skip_ws_length[of r2]
        skip_ws_Cons_length[OF that(5)] skip_ws_length[of r4] that(1)
      have "length (skip_ws r4) + 2 \<le> length s" by simp
      with b have "2 * length (skip_ws r4) + 2 \<le> n" by simp
      then show ?thesis by (rule ihm)
    qed
    have "F (Suc n) = F n"
      unfolding F_def
      by (auto split: option.splits list.splits simp: pv rec simp del: parse_simps_del)
    then show "parse_members (Suc (Suc n)) s kvs = parse_members (Suc n) s kvs"
      by (simp only: u)
  qed
  from v e m show ?case by blast
qed

lemma parse_value_fuel:
  assumes "2 * length s + 1 \<le> n" and "n \<le> m"
  shows "parse_value m s = parse_value n s"
  using assms(2,1)
proof (induction m rule: dec_induct)
  case base
  show ?case by simp
next
  case (step k)
  from step.hyps(1) step.prems have "2 * length s + 1 \<le> k" by simp
  with parse_fuel_step[of s k] have "parse_value (Suc k) s = parse_value k s" by blast
  with step.IH[OF step.prems] show ?case by simp
qed

lemma json_loads_fuel:
  assumes "2 * length s + 2 \<le> n"
  shows "parse_value n (skip_ws s) = parse_value (2 * length s + 2) (skip_ws s)"
proof -
  have "2 * length (skip_ws s) + 1 \<le> 2 * length s + 2" using skip_ws_length[of s] by simp
  from parse_value_fuel[OF this assms] show ?thesis .
qed

lemma parse_elements_JArray: "parse_elements n s acc = Some (v, r) \<Longrightarrow> \<exists>xs. v = JArray xs"
  apply (induction n arbitrary: s acc)
   apply simp
  apply (auto split: option.splits list.splits if_splits prod.splits)
  done

lemma parse_members_JObject: "parse_members n s acc = Some (v, r) \<Longrightarrow> \<exists>xs. v = JObject xs"
  apply (induction n arbitrary: s acc)
   apply simp
  apply (auto split: option.splits list.splits if_splits prod.splits)
  done

lemma parse_value_bracket:
  "parse_value n (CHR ''['' # s) = Some (v, r) \<Longrightarrow> \<exists>xs. v = JArray xs"
  by (cases n) (auto split: list.splits if_splits dest: parse_elements_JArray)

lemma parse_value_brace:
  "parse_value n (CHR ''{'' # s) = Some (v, r) \<Longrightarrow> \<exists>kvs. v = JObject kvs"
  by (cases n) (auto split: list.splits if_splits dest: parse_members_JObject)

lemma json_loads_parse_value:
  assumes "json_loads s = Some v"
  shows "\<exists>n r. parse_value n (skip_ws s) = Some (v, r)"
proof -
  from assms obtain r where "parse_value (2 * length s + 2) (skip_ws s) = Some (v, r)"
    unfolding json_loads_def
    by (cases "parse_value (2 * length s + 2) (skip_ws s)")
       (auto simp del: parse_value.simps split: if_splits)
  then show ?thesis by blast
qed

lemma json_loads_bracket: "json_loads (CHR ''['' # s) = Some v \<Longrightarrow> \<exists>xs. v = JArray xs"
  using json_loads_parse_value[of "CHR ''['' # s" v] parse_value_bracket
  by (auto simp: skip_ws_def is_ws_def)

lemma json_loads_brace: "json_loads (CHR ''{'' # s) = Some v \<Longrightarrow> \<exists>kvs. v = JObject kvs"
  using json_loads_parse_value[of "CHR ''{'' # s" v] parse_value_brace
  by (auto simp: skip_ws_def is_ws_def)

lemma re_search_lazy_hd: "re_search_lazy l r s = Some m \<Longrightarrow> \<exists>t. m = l # t"
  by (auto simp: re_search_lazy_def split: list.splits if_splits)

lemma matched_brace_is_dict:
  assumes "re_search_lazy (CHR ''{'') r s = Some m" and "json_loads m = Some v"
  shows "\<exists>kvs. v = JObject kvs"
  using assms re_search_lazy_hd json_loads_brace by blast

lemma matched_bracket_is_list:
  assumes "re_search_lazy (CHR ''['') r s = Some m" and "json_loads m = Some v"
  shows "\<exists>xs. v = JArray xs"
  using assms re_search_lazy_hd json_loads_bracket by blast


lemma max_or_zero_Max: "xs \<noteq> [] \<Longrightarrow> max_or_zero xs = Max (set xs)"
proof (cases xs)
  case Nil
  assume "xs \<noteq> []"
  with Nil show ?thesis by simp
next
  case (Cons a list)
  then show ?thesis using Max.set_eq_fold[of a list] by (simp add: max_or_zero_def)
qed

lemma similarity_list_Inr:
  "similarity_list ds = Inr ss \<Longrightarrow> ss = map (\<lambda>d. 1 / (1 + d)) ds \<and> (\<forall>d \<in> set ds. 1 + d \<noteq> 0)"
  by (induction ds arbitrary: ss) (auto simp: similarity_def split: sum.splits if_splits)

lemma retrieve_facts_Inr:
  assumes "retrieve_facts cfg sv c = Inr ret"
  shows "\<exists>emb hits. encode sv c = Inr emb \<and> chroma_query sv emb (top_k_results cfg) = Inr hits
           \<and> similarity_list (map distance hits) = Inr (similarity_scores ret)
           \<and> c = JString (query ret)
           \<and> retrieved_documents ret = map document hits
           \<and> sources ret = map (source_of \<circ> metadata) hits"
  using assms
  by (auto simp: retrieve_facts_def RetrievalEntity_def validate_str_def Let_def
           split: sum.splits json.splits)


lemma FactCheckEntity_Inr:
  "FactCheckEntity inp c v ev r conf = Inr res \<Longrightarrow>
     c = JString (claim res) \<and> v = JString (verdict res) \<and> r = JString (reasoning res)
     \<and> original_input res = inp \<and> evidence res = ev \<and> confidence_score res = conf"
  by (auto simp: FactCheckEntity_def validate_str_def split: sum.splits json.splits)

lemma check_main_claim_Inr:
  assumes "snd (check_main_claim cfg sv inp c) = Inr res"
  shows "\<exists>ret. retrieve_facts cfg sv c = Inr ret
           \<and> fst (check_main_claim cfg sv inp c) = [Call_retrieve_facts, Call_verify_claim]
           \<and> verify_claim cfg sv (query ret) (retrieved_documents ret)
               = (JString (verdict res), JString (reasoning res))
           \<and> c = JString (claim res) \<and> original_input res = inp
           \<and> evidence res = retrieved_documents ret
           \<and> confidence_score res = Some (max_or_zero (similarity_scores ret))"
  using assms
  by (auto simp: check_main_claim_def split: sum.splits prod.splits dest!: FactCheckEntity_Inr)

lemma run_worthy:
  assumes "fst (detect_claim sv inp)"
  shows "run cfg sv inp =
           (case check_main_claim cfg sv inp
                   (case extract_claims cfg sv inp of [] \<Rightarrow> JString inp | c # _ \<Rightarrow> c) of
              (calls, outcome) \<Rightarrow> (Call_detect_claim # Call_extract_claims # calls, outcome))"
  using assms
  by (cases "detect_claim sv inp"; cases "extract_claims cfg sv inp")
     (simp_all add: run_def item0_def Let_def)

lemma run_not_worthy:
  assumes "detect_claim sv inp = (False, s)"
  shows "run cfg sv inp =
           ([Call_detect_claim],
            Inr \<lparr>original_input = inp, claim = inp, verdict = ''Unverifiable'', evidence = [],
                 reasoning = NOT_CLAIM_WORTHY, confidence_score = Some s\<rparr>)"
  using assms by (simp add: run_def FactCheckEntity_def validate_str_def)

lemma upper_NFS: "upper ''NFS'' = ''NFS''"
  by (simp add: upper_def upper_char_def ascii_lowercase_def ascii_uppercase_def)

lemma length_zip_records:
  "length ds = length ids \<Longrightarrow> length es = length ids \<Longrightarrow> length ms = length ids \<Longrightarrow>
     length (zip_records ds es ids ms) = length ids"
  by (induction ds es ids ms rule: zip_records.induct) auto

lemma collection_add_empty:
  assumes "collection_add [] ds es ids ms = Inr coll1"
  shows "collection_count coll1 = length ids \<and> ids \<noteq> []"
  using assms
  by (auto simp: collection_add_def collection_count_def length_zip_records split: if_splits)

lemma embed_and_store_nonempty:
  "0 < collection_count coll \<Longrightarrow> embed_and_store sv coll facts = Inr (coll, collection_count coll)"
  by (simp add: embed_and_store_def)

lemma embed_and_store_Inr:
  assumes "embed_and_store sv coll facts = Inr (coll1, n1)"
  shows "collection_count coll1 = n1 \<and> (coll1 = coll \<or> 0 < n1)"
proof (cases "0 < collection_count coll")
  case True
  with assms show ?thesis by (auto simp: embed_and_store_def)
next
  case False
  then have "coll = []" by (simp add: collection_count_def)
  with assms show ?thesis
    by (auto simp: embed_and_store_def Let_def collection_count_def[of "[]"]
             split: sum.splits dest!: collection_add_empty)
qed

lemma similarity_list_bounds:
  assumes "similarity_list ds = Inr ss" and "\<forall>d \<in> set ds. 0 \<le> d"
  shows "\<forall>s \<in> set ss. 0 < s \<and> s \<le> 1"
  using assms
  by (induction ds arbitrary: ss) (auto simp: similarity_def split: sum.splits if_splits)

lemma similarity_list_length: "similarity_list ds = Inr ss \<Longrightarrow> length ss = length ds"
  by (induction ds arbitrary: ss) (auto split: sum.splits)

lemma max_or_zero_bounds:
  assumes "\<forall>s \<in> set ss. 0 < s \<and> s \<le> (1::real)"
  shows "0 \<le> max_or_zero ss \<and> max_or_zero ss \<le> 1"
proof (cases "ss = []")
  case True
  then show ?thesis by (simp add: max_or_zero_def)
next
  case False
  then have "Max (set ss) \<in> set ss" by simp
  with assms have "0 < Max (set ss) \<and> Max (set ss) \<le> 1" by blast
  with False show ?thesis by (simp add: max_or_zero_Max)
qed

lemma detect_claim_score:
  assumes "\<forall>t l s. claim_detector sv t = Inr (l, Some s) \<longrightarrow> 0 \<le> s \<and> s \<le> 1"
  shows "0 \<le> snd (detect_claim sv inp) \<and> snd (detect_claim sv inp) \<le> 1"
  using assms
  by (auto simp: detect_claim_def Let_def split: sum.splits option.splits)

lemma upper_CFS: "upper ''CFS'' = ''CFS''"
  by (simp add: upper_def upper_char_def ascii_lowercase_def ascii_uppercase_def)

lemma example_detect_worthy:
  "detect_claim (example_services (Some ''CFS'', Some 0.9) x v h) t = (True, 0.9)"
  by (simp add: detect_claim_def example_services_def upper_CFS)

lemma example_call_extraction:
  "call_ollama FactCheckingConfigInstance (example_services d (Inr (Some x)) v h)
     (extraction_model FactCheckingConfigInstance) p = Inr x"
  by (simp add: call_ollama_def example_services_def FactCheckingConfigInstance_def)

lemma example_call_verification:
  "call_ollama FactCheckingConfigInstance (example_services d x (Inr (Some v)) h)
     (verification_model FactCheckingConfigInstance) p = Inr v"
  by (simp add: call_ollama_def example_services_def FactCheckingConfigInstance_def)

lemma example_retrieve:
  "retrieve_facts FactCheckingConfigInstance (example_services d x v example_hits) (JString t)
     = Inr \<lparr>query = t,
            retrieved_documents = [''India is the fifth largest economy.'', ''India has 28 states.''],
            similarity_scores = [4 / 5, 1 / 2], sources = [''PIB'', ''Unknown'']\<rparr>"
  by (simp add: retrieve_facts_def example_services_def FactCheckingConfigInstance_def
                example_hits_def similarity_def RetrievalEntity_def validate_str_def source_of_def)

lemma loads_empty_array: "json_loads ''[]'' = Some (JArray [])"
  by code_simp

lemma loads_states_array:
  "json_loads ''[\"India has 28 states\"]'' = Some (JArray [JString ''India has 28 states''])"
  by code_simp


lemma loads_true_object:
  "json_loads ''{\"verdict\": \"True\", \"reasoning\": \"Matches.\"}''
     = Some (JObject [(''verdict'', JString ''True''), (''reasoning'', JString ''Matches.'')])"
  by code_simp

lemma loads_partial_object:
  "json_loads ''{\"verdict\": \"Partially True\", \"reasoning\": \"Half.\"}''
     = Some (JObject [(''verdict'', JString ''Partially True''), (''reasoning'', JString ''Half.'')])"
  by code_simp

lemma example_extract_states:
  "extract_claims FactCheckingConfigInstance
     (example_services d (Inr (Some ''Sure: [\"India has 28 states\"]'')) v h) t
   = [JString ''India has 28 states'']"
  by (simp add: extract_claims_def example_call_extraction re_search_lazy_def loads_states_array)

lemma example_extract_empty:
  "extract_claims FactCheckingConfigInstance (example_services d (Inr (Some ''[]'')) v h) t = []"
  by (simp add: extract_claims_def example_call_extraction re_search_lazy_def loads_empty_array)

lemma example_verify_true:
  "verify_claim FactCheckingConfigInstance
     (example_services d x (Inr (Some ''{\"verdict\": \"True\", \"reasoning\": \"Matches.\"}'')) h) c ev
   = (JString ''True'', JString ''Matches.'')"
  by (simp add: verify_claim_def example_call_verification re_search_lazy_def loads_true_object
                dict_get_def)

lemma example_run_normal:
  "run FactCheckingConfigInstance
     (example_services (Some ''CFS'', Some 0.9) (Inr (Some ''Sure: [\"India has 28 states\"]''))
        (Inr (Some ''{\"verdict\": \"True\", \"reasoning\": \"Matches.\"}'')) example_hits)
     ''India has 28 states, I think''
   = ([Call_detect_claim, Call_extract_claims, Call_retrieve_facts, Call_verify_claim],
      Inr \<lparr>original_input = ''India has 28 states, I think'', claim = ''India has 28 states'',
           verdict = ''True'',
           evidence = [''India is the fifth largest economy.'', ''India has 28 states.''],
           reasoning = ''Matches.'', confidence_score = Some (4 / 5)\<rparr>)"
  by (simp add: run_def example_detect_worthy example_extract_states item0_def
                check_main_claim_def example_retrieve example_verify_true FactCheckEntity_def
                validate_str_def max_or_zero_def)

lemma example_run_empty:
  "run FactCheckingConfigInstance
     (example_services (Some ''CFS'', Some 0.9) (Inr (Some ''[]''))
        (Inr (Some ''{\"verdict\": \"True\", \"reasoning\": \"Matches.\"}'')) example_hits)
     ''India has 28 states''
   = ([Call_detect_claim, Call_extract_claims, Call_retrieve_facts, Call_verify_claim],
      Inr \<lparr>original_input = ''India has 28 states'', claim = ''India has 28 states'',
           verdict = ''True'',
           evidence = [''India is the fifth largest economy.'', ''India has 28 states.''],
           reasoning = ''Matches.'', confidence_score = Some (4 / 5)\<rparr>)"
  by (simp add: run_def example_detect_worthy example_extract_empty
                check_main_claim_def example_retrieve example_verify_true FactCheckEntity_def
                validate_str_def max_or_zero_def)




section \<open>The claims\<close>

text \<open>
  C1: the verdict of \<open>verify_claim\<close> should be one of \<open>True\<close>, \<open>False\<close>, \<open>Unverifiable\<close>.
  On a response that holds a JSON object the code returns the value of its key
  \<open>verdict\<close> as it is: on the response below the verdict is \<open>Partially True\<close>, which is
  none of the three in any letter case.
\<close>

theorem verify_claim_verdict_passed_through:
  "call_ollama FactCheckingConfigInstance
     (example_services (Some ''CFS'', Some 0.9) (Inr (Some ''[]''))
        (Inr (Some ''{\"verdict\": \"Partially True\", \"reasoning\": \"Half.\"}'')) example_hits)
     (verification_model FactCheckingConfigInstance)
     (verification_prompt FactCheckingConfigInstance ''India has 28 states''
        (join ''\<newline>'' (map (\<lambda>e. ''- '' @ e) [''India has 28 states.''])))
     = Inr ''{\"verdict\": \"Partially True\", \"reasoning\": \"Half.\"}''
   \<and> verify_claim FactCheckingConfigInstance
        (example_services (Some ''CFS'', Some 0.9) (Inr (Some ''[]''))
           (Inr (Some ''{\"verdict\": \"Partially True\", \"reasoning\": \"Half.\"}'')) example_hits)
        ''India has 28 states'' [''India has 28 states.'']
      = (JString ''Partially True'', JString ''Half.'')
   \<and> lower ''Partially True'' \<notin> {''true'', ''false'', ''unverifiable''}"
  by (simp add: example_call_verification verify_claim_def re_search_lazy_def
                loads_partial_object dict_get_def
                lower_def lower_char_def ascii_lowercase_def ascii_uppercase_def)




text \<open>
  C3: \<open>_embed_and_store\<close> on a collection that holds a record adds nothing and returns the
  count of the collection; and a call that has returned, run again on the collection it
  left with the same facts, leaves the collection as it is and returns the same count,
  the number of records of the collection.
\<close>

theorem embed_and_store_idempotent:
  "(0 < collection_count coll \<longrightarrow>
      embed_and_store sv coll facts = Inr (coll, collection_count coll))
   \<and> (\<forall>coll1 n1. embed_and_store sv coll facts = Inr (coll1, n1) \<longrightarrow>
         embed_and_store sv coll1 facts = Inr (coll1, n1) \<and> collection_count coll1 = n1)"
proof (intro conjI allI impI)
  assume "0 < collection_count coll"
  then show "embed_and_store sv coll facts = Inr (coll, collection_count coll)"
    by (rule embed_and_store_nonempty)
next
  fix coll1 n1 assume a: "embed_and_store sv coll facts = Inr (coll1, n1)"
  from embed_and_store_Inr[OF a] show "collection_count coll1 = n1" by simp
  from embed_and_store_Inr[OF a] have "coll1 = coll \<or> 0 < collection_count coll1" by auto
  then show "embed_and_store sv coll1 facts = Inr (coll1, n1)"
  proof
    assume "coll1 = coll" with a show ?thesis by simp
  next
    assume "0 < collection_count coll1"
    from embed_and_store_nonempty[OF this] embed_and_store_Inr[OF a] show ?thesis by simp
  qed
qed

theorem embed_and_store_idempotent_witness:
  "embed_and_store example_ingestion_services [] example_facts
     = Inr ([\<lparr>record_id = ''fact_1'', record_document = ''India is the fifth largest economy.'',
              record_embedding = [0.1, 0.2],
              record_metadata = [(''source'', ''PIB''), (''date'', ''2022''), (''category'', ''economy'')]\<rparr>,
             \<lparr>record_id = ''fact_2'', record_document = ''India has 28 states.'',
              record_embedding = [0.1, 0.2],
              record_metadata = [(''source'', ''PIB''), (''date'', ''2021''), (''category'', ''polity'')]\<rparr>], 2)
   \<and> embed_and_store example_ingestion_services
        (fst (projr (embed_and_store example_ingestion_services [] example_facts))) example_facts
      = embed_and_store example_ingestion_services [] example_facts
   \<and> collection_count (fst (projr (embed_and_store example_ingestion_services [] example_facts))) = 2"
proof -
  let ?recs = "[\<lparr>record_id = ''fact_1'', record_document = ''India is the fifth largest economy.'',
              record_embedding = [0.1, 0.2],
              record_metadata = [(''source'', ''PIB''), (''date'', ''2022''), (''category'', ''economy'')]\<rparr>,
             \<lparr>record_id = ''fact_2'', record_document = ''India has 28 states.'',
              record_embedding = [0.1, 0.2],
              record_metadata = [(''source'', ''PIB''), (''date'', ''2021''), (''category'', ''polity'')]\<rparr>]"
  have h: "embed_and_store example_ingestion_services [] example_facts = Inr (?recs, 2)"
    by (simp add: embed_and_store_def example_ingestion_services_def example_facts_def
                  collection_count_def collection_add_def)
  from embed_and_store_idempotent[of "[]" example_ingestion_services example_facts]
  have "embed_and_store example_ingestion_services ?recs example_facts = Inr (?recs, 2)
        \<and> collection_count ?recs = 2"
    using h by blast
  with h show ?thesis by simp
qed



text \<open>
  C5: when the detector answers "not claim-worthy" with score \<open>s\<close>, \<open>run\<close> returns the
  verdict \<open>Unverifiable\<close>, no evidence, the fixed reasoning and the confidence \<open>s\<close>; the
  only method it invokes is \<open>detect_claim\<close>, and its result is the same under every
  configuration and every other extractor, retriever and verifier services.
\<close>

theorem run_short_circuit:
  assumes "detect_claim sv input_text = (False, s)"
  shows "run cfg sv input_text =
           ([Call_detect_claim],
            Inr \<lparr>original_input = input_text, claim = input_text, verdict = ''Unverifiable'',
                 evidence = [], reasoning = NOT_CLAIM_WORTHY, confidence_score = Some s\<rparr>)
         \<and> (\<forall>cfg' sv'. claim_detector sv' = claim_detector sv \<longrightarrow>
                run cfg' sv' input_text = run cfg sv input_text)"
proof (intro conjI allI impI)
  show "run cfg sv input_text =
           ([Call_detect_claim],
            Inr \<lparr>original_input = input_text, claim = input_text, verdict = ''Unverifiable'',
                 evidence = [], reasoning = NOT_CLAIM_WORTHY, confidence_score = Some s\<rparr>)"
    using assms by (rule run_not_worthy)
next
  fix cfg' :: config and sv' :: services assume "claim_detector sv' = claim_detector sv"
  then have "detect_claim sv' input_text = (False, s)"
    using assms by (simp add: detect_claim_def)
  then show "run cfg' sv' input_text = run cfg sv input_text"
    using assms by (simp add: run_not_worthy)
qed

theorem run_short_circuit_witness:
  "detect_claim (example_services (Some ''NFS'', Some 0.2) (Inl (ServiceError ''down''))
                   (Inl (ServiceError ''down'')) []) ''hello there'' = (False, 0.2)
   \<and> run FactCheckingConfigInstance
        (example_services (Some ''NFS'', Some 0.2) (Inl (ServiceError ''down''))
           (Inl (ServiceError ''down'')) []) ''hello there''
      = ([Call_detect_claim],
         Inr \<lparr>original_input = ''hello there'', claim = ''hello there'',
              verdict = ''Unverifiable'', evidence = [],
              reasoning = ''The input does not appear to contain a factual claim that can be verified.'',
              confidence_score = Some 0.2\<rparr>)"
proof -
  have h: "detect_claim (example_services (Some ''NFS'', Some 0.2) (Inl (ServiceError ''down''))
                   (Inl (ServiceError ''down'')) []) ''hello there'' = (False, 0.2)"
    by (simp add: detect_claim_def example_services_def upper_NFS)
  from run_short_circuit[OF h, of FactCheckingConfigInstance] h show ?thesis
    by (simp add: NOT_CLAIM_WORTHY_def)
qed

text \<open>
  C6: on the normal path (the detector answers "claim-worthy" and \<open>run\<close> returns a
  result), the evidence of the result is the list of retrieved documents, which has one
  similarity score per document; the confidence is the greatest of these scores when a
  document was retrieved, and \<open>0\<close> when none was.
\<close>

theorem run_confidence_max_similarity:
  assumes "fst (detect_claim sv input_text)"
    and "snd (run cfg sv input_text) = Inr res"
  shows "\<exists>ret. retrieve_facts cfg sv
                 (case extract_claims cfg sv input_text of [] \<Rightarrow> JString input_text | c # _ \<Rightarrow> c)
               = Inr ret
           \<and> evidence res = retrieved_documents ret
           \<and> length (similarity_scores ret) = length (retrieved_documents ret)
           \<and> (retrieved_documents ret \<noteq> [] \<longrightarrow>
                confidence_score res = Some (Max (set (similarity_scores ret))))
           \<and> (retrieved_documents ret = [] \<longrightarrow> confidence_score res = Some 0)"
proof -
  let ?c = "case extract_claims cfg sv input_text of [] \<Rightarrow> JString input_text | c # _ \<Rightarrow> c"
  from assms have "snd (check_main_claim cfg sv input_text ?c) = Inr res"
    by (simp add: run_worthy split: prod.splits)
  from check_main_claim_Inr[OF this] obtain ret where
    r: "retrieve_facts cfg sv ?c = Inr ret" and
    e: "evidence res = retrieved_documents ret" and
    m: "confidence_score res = Some (max_or_zero (similarity_scores ret))"
    by blast
  from retrieve_facts_Inr[OF r] have
    len: "length (similarity_scores ret) = length (retrieved_documents ret)"
    by (auto dest: similarity_list_length)
  have "retrieved_documents ret \<noteq> [] \<longrightarrow>
          confidence_score res = Some (Max (set (similarity_scores ret)))"
  proof
    assume "retrieved_documents ret \<noteq> []"
    with len have "similarity_scores ret \<noteq> []" by auto
    with m show "confidence_score res = Some (Max (set (similarity_scores ret)))"
      by (simp add: max_or_zero_Max)
  qed
  moreover have "retrieved_documents ret = [] \<longrightarrow> confidence_score res = Some 0"
    using m len by (auto simp: max_or_zero_def)
  ultimately show ?thesis using r e len by blast
qed

theorem run_confidence_max_similarity_witness:
  "fst (detect_claim
          (example_services (Some ''CFS'', Some 0.9) (Inr (Some ''Sure: [\"India has 28 states\"]''))
             (Inr (Some ''{\"verdict\": \"True\", \"reasoning\": \"Matches.\"}'')) example_hits)
          ''India has 28 states, I think'')
   \<and> snd (run FactCheckingConfigInstance
          (example_services (Some ''CFS'', Some 0.9) (Inr (Some ''Sure: [\"India has 28 states\"]''))
             (Inr (Some ''{\"verdict\": \"True\", \"reasoning\": \"Matches.\"}'')) example_hits)
          ''India has 28 states, I think'')
       = Inr \<lparr>original_input = ''India has 28 states, I think'', claim = ''India has 28 states'',
              verdict = ''True'',
              evidence = [''India is the fifth largest economy.'', ''India has 28 states.''],
              reasoning = ''Matches.'', confidence_score = Some (4 / 5)\<rparr>
   \<and> Max (set [4 / 5, 1 / 2 :: real]) = 4 / 5"
proof -
  let ?sv = "example_services (Some ''CFS'', Some 0.9) (Inr (Some ''Sure: [\"India has 28 states\"]''))
             (Inr (Some ''{\"verdict\": \"True\", \"reasoning\": \"Matches.\"}'')) example_hits"
  let ?res = "\<lparr>original_input = ''India has 28 states, I think'', claim = ''India has 28 states'',
              verdict = ''True'',
              evidence = [''India is the fifth largest economy.'', ''India has 28 states.''],
              reasoning = ''Matches.'', confidence_score = Some (4 / 5 :: real)\<rparr>"
  have h1: "fst (detect_claim ?sv ''India has 28 states, I think'')"
    by (simp add: example_detect_worthy)
  have h2: "snd (run FactCheckingConfigInstance ?sv ''India has 28 states, I think'') = Inr ?res"
    by (simp add: example_run_normal)
  from run_confidence_max_similarity[OF h1 h2] obtain ret where
    r: "retrieve_facts FactCheckingConfigInstance ?sv
          (case extract_claims FactCheckingConfigInstance ?sv ''India has 28 states, I think'' of
             [] \<Rightarrow> JString ''India has 28 states, I think'' | c # _ \<Rightarrow> c) = Inr ret"
    and m: "retrieved_documents ret \<noteq> [] \<longrightarrow>
              confidence_score ?res = Some (Max (set (similarity_scores ret)))"
    by blast
  from r have "ret = \<lparr>query = ''India has 28 states'',
            retrieved_documents = [''India is the fifth largest economy.'', ''India has 28 states.''],
            similarity_scores = [4 / 5, 1 / 2], sources = [''PIB'', ''Unknown'']\<rparr>"
    by (simp add: example_extract_states example_retrieve)
  with m have "Max (set [4 / 5, 1 / 2 :: real]) = 4 / 5" by simp
  with h1 h2 show ?thesis by blast
qed

text \<open>
  C7: when every score of the classifier lies in \<open>[0, 1]\<close> and every distance of the store
  is non-negative, the confidence of every result of \<open>run\<close> lies in \<open>[0, 1]\<close>, on the
  short-circuit path and on the normal path.
\<close>

theorem run_confidence_unit_interval:
  assumes "\<forall>t l s. claim_detector sv t = Inr (l, Some s) \<longrightarrow> 0 \<le> s \<and> s \<le> 1"
    and "\<forall>emb k hits. chroma_query sv emb k = Inr hits \<longrightarrow> (\<forall>h \<in> set hits. 0 \<le> distance h)"
    and "snd (run cfg sv input_text) = Inr res"
    and "confidence_score res = Some conf"
  shows "0 \<le> conf \<and> conf \<le> 1"
proof (cases "fst (detect_claim sv input_text)")
  case False
  then have d: "detect_claim sv input_text = (False, snd (detect_claim sv input_text))"
    by (cases "detect_claim sv input_text") simp
  from run_not_worthy[OF d, of cfg] assms(3,4) have "conf = snd (detect_claim sv input_text)"
    by auto
  with detect_claim_score[OF assms(1), of input_text] show ?thesis by simp
next
  case True
  let ?c = "case extract_claims cfg sv input_text of [] \<Rightarrow> JString input_text | c # _ \<Rightarrow> c"
  from True assms(3) have "snd (check_main_claim cfg sv input_text ?c) = Inr res"
    by (simp add: run_worthy split: prod.splits)
  from check_main_claim_Inr[OF this] obtain ret where
    r: "retrieve_facts cfg sv ?c = Inr ret" and
    m: "confidence_score res = Some (max_or_zero (similarity_scores ret))"
    by blast
  from retrieve_facts_Inr[OF r] obtain emb hits where
    q: "chroma_query sv emb (top_k_results cfg) = Inr hits" and
    s: "similarity_list (map distance hits) = Inr (similarity_scores ret)"
    by blast
  from assms(2) q have "\<forall>d \<in> set (map distance hits). 0 \<le> d" by auto
  from max_or_zero_bounds[OF similarity_list_bounds[OF s this]] m assms(4)
  show ?thesis by simp
qed

theorem run_confidence_unit_interval_witness:
  "snd (run FactCheckingConfigInstance
          (example_services (Some ''CFS'', Some 0.9) (Inr (Some ''Sure: [\"India has 28 states\"]''))
             (Inr (Some ''{\"verdict\": \"True\", \"reasoning\": \"Matches.\"}'')) example_hits)
          ''India has 28 states, I think'')
       = Inr \<lparr>original_input = ''India has 28 states, I think'', claim = ''India has 28 states'',
              verdict = ''True'',
              evidence = [''India is the fifth largest economy.'', ''India has 28 states.''],
              reasoning = ''Matches.'', confidence_score = Some (4 / 5)\<rparr>
   \<and> (0::real) \<le> 4 / 5 \<and> (4 / 5 :: real) \<le> 1"
proof -
  let ?sv = "example_services (Some ''CFS'', Some 0.9) (Inr (Some ''Sure: [\"India has 28 states\"]''))
             (Inr (Some ''{\"verdict\": \"True\", \"reasoning\": \"Matches.\"}'')) example_hits"
  let ?res = "\<lparr>original_input = ''India has 28 states, I think'', claim = ''India has 28 states'',
              verdict = ''True'',
              evidence = [''India is the fifth largest economy.'', ''India has 28 states.''],
              reasoning = ''Matches.'', confidence_score = Some (4 / 5 :: real)\<rparr>"
  have h1: "\<forall>t l s. claim_detector ?sv t = Inr (l, Some s) \<longrightarrow> 0 \<le> s \<and> s \<le> 1"
    by (simp add: example_services_def)
  have h2: "\<forall>emb k hits. chroma_query ?sv emb k = Inr hits \<longrightarrow> (\<forall>h \<in> set hits. 0 \<le> distance h)"
    by (auto simp: example_services_def example_hits_def dest!: in_set_takeD)
  have h3: "snd (run FactCheckingConfigInstance ?sv ''India has 28 states, I think'') = Inr ?res"
    by (simp add: example_run_normal)
  have h4: "confidence_score ?res = Some (4 / 5)" by simp
  from run_confidence_unit_interval[OF h1 h2 h3 h4] h3 show ?thesis by blast
qed




text \<open>
  C9: when the call to the LLM raises, \<open>verify_claim\<close> raises nothing: it returns
  \<open>Unverifiable\<close> with the reasoning \<open>Error during verification: \<close> followed by the text
  of the exception it caught, the \<open>CustomException\<close> that wraps the error of the call:
  that text holds the message of the error, with the line and the file of the traceback.
\<close>

theorem verify_claim_llm_error:
  assumes "http_post sv (ollama_base_url cfg @ ''/api/generate'') (verification_model cfg)
             (verification_prompt cfg c (join ''\<newline>'' (map (\<lambda>e. ''- '' @ e) ev))) = Inl e"
  shows "verify_claim cfg sv c ev =
           (JString ''Unverifiable'',
            JString (''Error during verification: ''
                       @ str_exception (raise_CustomException (exc_info sv) e)))
         \<and> str_exception (raise_CustomException (exc_info sv) e)
             = ''CustomException: '' @ str_exception e @ '' on line: ''
                 @ str_nat (fst (exc_info sv e)) @ '' of '' @ snd (exc_info sv e)"
  using assms
  by (simp add: verify_claim_def call_ollama_def raise_CustomException_def split: prod.splits)

theorem verify_claim_llm_error_witness:
  "http_post (example_services (Some ''CFS'', Some 0.9) (Inr (Some ''[]''))
                (Inl (ServiceError ''timed out'')) example_hits)
     (ollama_base_url FactCheckingConfigInstance @ ''/api/generate'')
     (verification_model FactCheckingConfigInstance)
     (verification_prompt FactCheckingConfigInstance ''India has 28 states''
        (join ''\<newline>'' (map (\<lambda>e. ''- '' @ e) [''India has 28 states.''])))
     = Inl (ServiceError ''timed out'')
   \<and> verify_claim FactCheckingConfigInstance
        (example_services (Some ''CFS'', Some 0.9) (Inr (Some ''[]''))
           (Inl (ServiceError ''timed out'')) example_hits)
        ''India has 28 states'' [''India has 28 states.'']
      = (JString ''Unverifiable'',
         JString ''Error during verification: CustomException: timed out on line: 103 of fact_checking.py'')"
proof -
  let ?sv = "example_services (Some ''CFS'', Some 0.9) (Inr (Some ''[]''))
                (Inl (ServiceError ''timed out'')) example_hits"
  have h: "http_post ?sv
     (ollama_base_url FactCheckingConfigInstance @ ''/api/generate'')
     (verification_model FactCheckingConfigInstance)
     (verification_prompt FactCheckingConfigInstance ''India has 28 states''
        (join ''\<newline>'' (map (\<lambda>e. ''- '' @ e) [''India has 28 states.''])))
     = Inl (ServiceError ''timed out'')"
    by (simp add: example_services_def FactCheckingConfigInstance_def)
  have s: "str_nat 103 = ''103''"
    by (simp add: str_nat.simps digit_char_def)
  have r: "raise_CustomException (exc_info ?sv) (ServiceError ''timed out'')
             = CustomException (ServiceError ''timed out'') 103 ''fact_checking.py''"
    by (simp add: raise_CustomException_def example_services_def)
  from verify_claim_llm_error[OF h] have
    "verify_claim FactCheckingConfigInstance ?sv ''India has 28 states'' [''India has 28 states.'']
       = (JString ''Unverifiable'',
          JString (''Error during verification: ''
                     @ str_exception (raise_CustomException (exc_info ?sv) (ServiceError ''timed out''))))"
    by blast
  with h show ?thesis by (simp add: r s)
qed

text \<open>
  C10: when \<open>extract_claims\<close> returns the empty list, \<open>run\<close> takes the input text as the
  main claim and goes on with retrieval and verification on it: it is the run of steps 3
  and 4 on the input text, it never raises for an index out of range, and a result it
  returns has the input text as its claim and the verdict of \<open>verify_claim\<close> on that text.
\<close>

theorem run_empty_claims:
  assumes "fst (detect_claim sv input_text)"
    and "extract_claims cfg sv input_text = []"
  shows "run cfg sv input_text =
           (case check_main_claim cfg sv input_text (JString input_text) of
              (calls, outcome) \<Rightarrow> (Call_detect_claim # Call_extract_claims # calls, outcome))
         \<and> (\<forall>line path. snd (run cfg sv input_text) \<noteq> Inl (CustomException IndexError line path))
         \<and> (\<forall>res. snd (run cfg sv input_text) = Inr res \<longrightarrow>
               claim res = input_text
               \<and> fst (run cfg sv input_text)
                   = [Call_detect_claim, Call_extract_claims, Call_retrieve_facts, Call_verify_claim]
               \<and> (\<exists>ret. retrieve_facts cfg sv (JString input_text) = Inr ret
                     \<and> evidence res = retrieved_documents ret
                     \<and> verify_claim cfg sv input_text (retrieved_documents ret)
                         = (JString (verdict res), JString (reasoning res))))"
proof -
  have r: "run cfg sv input_text =
           (case check_main_claim cfg sv input_text (JString input_text) of
              (calls, outcome) \<Rightarrow> (Call_detect_claim # Call_extract_claims # calls, outcome))"
    using assms by (simp add: run_worthy)
  have n: "\<forall>line path. snd (run cfg sv input_text) \<noteq> Inl (CustomException IndexError line path)"
    unfolding r
    by (auto simp: check_main_claim_def raise_CustomException_def retrieve_facts_def
                   FactCheckEntity_def validate_str_def
             split: prod.splits sum.splits json.splits)
  have "\<forall>res. snd (run cfg sv input_text) = Inr res \<longrightarrow>
               claim res = input_text
               \<and> fst (run cfg sv input_text)
                   = [Call_detect_claim, Call_extract_claims, Call_retrieve_facts, Call_verify_claim]
               \<and> (\<exists>ret. retrieve_facts cfg sv (JString input_text) = Inr ret
                     \<and> evidence res = retrieved_documents ret
                     \<and> verify_claim cfg sv input_text (retrieved_documents ret)
                         = (JString (verdict res), JString (reasoning res)))"
  proof (intro allI impI)
    fix res assume "snd (run cfg sv input_text) = Inr res"
    then have "snd (check_main_claim cfg sv input_text (JString input_text)) = Inr res"
      unfolding r by (simp split: prod.splits)
    from check_main_claim_Inr[OF this] obtain ret where
      a: "retrieve_facts cfg sv (JString input_text) = Inr ret"
         "fst (check_main_claim cfg sv input_text (JString input_text))
            = [Call_retrieve_facts, Call_verify_claim]"
         "verify_claim cfg sv (query ret) (retrieved_documents ret)
            = (JString (verdict res), JString (reasoning res))"
         "JString input_text = JString (claim res)"
         "evidence res = retrieved_documents ret"
      by blast
    from retrieve_facts_Inr[OF a(1)] have "query ret = input_text" by auto
    with a show "claim res = input_text
               \<and> fst (run cfg sv input_text)
                   = [Call_detect_claim, Call_extract_claims, Call_retrieve_facts, Call_verify_claim]
               \<and> (\<exists>ret. retrieve_facts cfg sv (JString input_text) = Inr ret
                     \<and> evidence res = retrieved_documents ret
                     \<and> verify_claim cfg sv input_text (retrieved_documents ret)
                         = (JString (verdict res), JString (reasoning res)))"
      unfolding r by (auto split: prod.splits)
  qed
  with r n show ?thesis by blast
qed

theorem run_empty_claims_witness:
  "fst (detect_claim
          (example_services (Some ''CFS'', Some 0.9) (Inr (Some ''[]''))
             (Inr (Some ''{\"verdict\": \"True\", \"reasoning\": \"Matches.\"}'')) example_hits)
          ''India has 28 states'')
   \<and> extract_claims FactCheckingConfigInstance
          (example_services (Some ''CFS'', Some 0.9) (Inr (Some ''[]''))
             (Inr (Some ''{\"verdict\": \"True\", \"reasoning\": \"Matches.\"}'')) example_hits)
          ''India has 28 states'' = []
   \<and> run FactCheckingConfigInstance
          (example_services (Some ''CFS'', Some 0.9) (Inr (Some ''[]''))
             (Inr (Some ''{\"verdict\": \"True\", \"reasoning\": \"Matches.\"}'')) example_hits)
          ''India has 28 states''
       = ([Call_detect_claim, Call_extract_claims, Call_retrieve_facts, Call_verify_claim],
          Inr \<lparr>original_input = ''India has 28 states'', claim = ''India has 28 states'',
              verdict = ''True'',
              evidence = [''India is the fifth largest economy.'', ''India has 28 states.''],
              reasoning = ''Matches.'', confidence_score = Some (4 / 5)\<rparr>)"
proof -
  let ?sv = "example_services (Some ''CFS'', Some 0.9) (Inr (Some ''[]''))
             (Inr (Some ''{\"verdict\": \"True\", \"reasoning\": \"Matches.\"}'')) example_hits"
  have h1: "fst (detect_claim ?sv ''India has 28 states'')"
    by (simp add: example_detect_worthy)
  have h2: "extract_claims FactCheckingConfigInstance ?sv ''India has 28 states'' = []"
    by (rule example_extract_empty)
  from run_empty_claims[OF h1 h2] have
    "run FactCheckingConfigInstance ?sv ''India has 28 states'' =
       (case check_main_claim FactCheckingConfigInstance ?sv ''India has 28 states''
               (JString ''India has 28 states'') of
          (calls, outcome) \<Rightarrow> (Call_detect_claim # Call_extract_claims # calls, outcome))"
    by blast
  then have "run FactCheckingConfigInstance ?sv ''India has 28 states''
       = ([Call_detect_claim, Call_extract_claims, Call_retrieve_facts, Call_verify_claim],
          Inr \<lparr>original_input = ''India has 28 states'', claim = ''India has 28 states'',
              verdict = ''True'',
              evidence = [''India is the fifth largest economy.'', ''India has 28 states.''],
              reasoning = ''Matches.'', confidence_score = Some (4 / 5)\<rparr>)"
    by (simp add: check_main_claim_def example_retrieve example_verify_true FactCheckEntity_def
                  validate_str_def max_or_zero_def)
  with h1 h2 show ?thesis by blast
qed

end
